theory Spec2Isabelle
  imports Main "HOL-Library.Sublist"
begin

section \<open>JSON values and the runtime's string operations\<close>

text \<open>
  The hook library (\<^verbatim>\<open>lib.ts\<close>) handles values produced by \<^verbatim>\<open>JSON.parse\<close>.
  They are modelled by the datatype below; an object is an association list in insertion
  order (the rule that puts integer-like keys first is left out: the runner never
  enumerates a payload).  Numbers are integers, and strings are lists of ASCII characters:
  floating point and characters beyond ASCII are outside the model.
\<close>

datatype json =
    JNull
  | JBool bool
  | JNum int
  | JStr string
  | JArr "json list"
  | JObj "(string \<times> json) list"

text \<open>\<^verbatim>\<open>Array.prototype.join\<close>.\<close>

fun join :: "string \<Rightarrow> string list \<Rightarrow> string" where
  "join sep [] = []"
| "join sep [x] = x"
| "join sep (x # y # ys) = x @ sep @ join sep (y # ys)"

text \<open>Decimal notation of a number, as \<^verbatim>\<open>String(n)\<close> prints an integer.\<close>

fun digits :: "nat \<Rightarrow> string" where
  "digits n = (if n < 10 then [''0123456789'' ! n]
               else digits (n div 10) @ [''0123456789'' ! (n mod 10)])"

declare digits.simps [simp del]

definition show_int :: "int \<Rightarrow> string" where
  "show_int i = (if i < 0 then CHR ''-'' # digits (nat (- i)) else digits (nat i))"

text \<open>
  \<^verbatim>\<open>JSON.stringify\<close> without indentation, after ECMAScript's \<^verbatim>\<open>QuoteJSONString\<close> and
  \<^verbatim>\<open>SerializeJSONProperty\<close>: the double quote and the backslash are escaped, the control
  characters are written with their short escape or as \<^verbatim>\<open>\u00XX\<close>.
\<close>

definition hex_digit :: "nat \<Rightarrow> char" where
  "hex_digit n = ''0123456789abcdef'' ! (n mod 16)"

definition escape_char :: "char \<Rightarrow> string" where
  "escape_char c =
     (let n = (of_char c :: nat) in
      if n = 0x22 then [CHR 0x5C, CHR 0x22]
      else if n = 0x5C then [CHR 0x5C, CHR 0x5C]
      else if n = 0x08 then [CHR 0x5C, CHR ''b'']
      else if n = 0x0C then [CHR 0x5C, CHR ''f'']
      else if n = 0x0A then [CHR 0x5C, CHR ''n'']
      else if n = 0x0D then [CHR 0x5C, CHR ''r'']
      else if n = 0x09 then [CHR 0x5C, CHR ''t'']
      else if n < 0x20 then [CHR 0x5C, CHR ''u'', CHR ''0'', CHR ''0'', hex_digit (n div 16), hex_digit n]
      else [c])"

definition quote :: "string \<Rightarrow> string" where
  "quote s = CHR 0x22 # concat (map escape_char s) @ [CHR 0x22]"

fun stringify :: "json \<Rightarrow> string" where
  "stringify JNull = ''null''"
| "stringify (JBool b) = (if b then ''true'' else ''false'')"
| "stringify (JNum n) = show_int n"
| "stringify (JStr s) = quote s"
| "stringify (JArr xs) = ''['' @ join '','' (map stringify xs) @ '']''"
| "stringify (JObj kvs) =
     ''{'' @ join '','' (map (\<lambda>kv. quote (fst kv) @ '':'' @ stringify (snd kv)) kvs) @ ''}''"

text \<open>
  Property read and property write on an object.  A write to an existing key keeps the key's
  position, a write to a new key appends it.
\<close>

definition obj_get :: "(string \<times> json) list \<Rightarrow> string \<Rightarrow> json option" where
  "obj_get kvs k = map_of kvs k"

definition obj_set :: "(string \<times> json) list \<Rightarrow> string \<Rightarrow> json \<Rightarrow> (string \<times> json) list" where
  "obj_set kvs k v =
     (if k \<in> fst ` set kvs then map (\<lambda>kv. if fst kv = k then (k, v) else kv) kvs
      else kvs @ [(k, v)])"

text \<open>
  The object spread \<^verbatim>\<open>{...x}\<close> copies the own enumerable properties of \<^verbatim>\<open>x\<close>: the
  fields of an object, the indexed elements of an array, the indexed characters of a string,
  and nothing for \<^verbatim>\<open>null\<close>, a boolean or a number.
\<close>

fun indexed :: "nat \<Rightarrow> json list \<Rightarrow> (string \<times> json) list" where
  "indexed i [] = []"
| "indexed i (x # xs) = (digits i, x) # indexed (Suc i) xs"

definition spread :: "json \<Rightarrow> (string \<times> json) list" where
  "spread x =
     (case x of
        JObj kvs \<Rightarrow> foldl (\<lambda>acc kv. obj_set acc (fst kv) (snd kv)) [] kvs
      | JArr xs \<Rightarrow> indexed 0 xs
      | JStr s \<Rightarrow> indexed 0 (map (\<lambda>c. JStr [c]) s)
      | _ \<Rightarrow> [])"

text \<open>
  \<^verbatim>\<open>String.prototype.trim\<close>, \<^verbatim>\<open>toLowerCase\<close> and \<^verbatim>\<open>includes\<close> on ASCII strings.
\<close>

definition is_space :: "char \<Rightarrow> bool" where
  "is_space c = (c \<in> set [CHR 0x20, CHR 0x09, CHR 0x0A, CHR 0x0B, CHR 0x0C, CHR 0x0D])"

definition trim :: "string \<Rightarrow> string" where
  "trim s = rev (dropWhile is_space (rev (dropWhile is_space s)))"

definition lower_char :: "char \<Rightarrow> char" where
  "lower_char c =
     (let n = (of_char c :: nat) in if 65 \<le> n \<and> n \<le> 90 then char_of (n + 32) else c)"

definition toLowerCase :: "string \<Rightarrow> string" where
  "toLowerCase s = map lower_char s"

definition includes_str :: "string \<Rightarrow> string \<Rightarrow> bool" where
  "includes_str s t = sublist t s"

section \<open>The hook runner\<close>

text \<open>
  A handler receives the tagged payload and either returns a response, throws, or returns a
  promise that rejects.  Handlers are taken to settle; what a handler itself prints is not
  part of the runner.
\<close>

datatype handler_result = Returns json | Throws string | Rejects string

type_synonym handler = "json \<Rightarrow> handler_result"

record HookHandlers =
  preToolUse :: "handler option"
  postToolUse :: "handler option"
  notification :: "handler option"
  stop :: "handler option"
  subagentStop :: "handler option"
  userPromptSubmit :: "handler option"
  preCompact :: "handler option"
  sessionStart :: "handler option"

text \<open>
  What the process does to the outside, in order: a line on standard output
  (\<^verbatim>\<open>console.log\<close>), a line on standard error (\<^verbatim>\<open>console.error\<close>), and
  \<^verbatim>\<open>process.exit\<close>.
\<close>

datatype event = Stdout string | Stderr string | Exit int

fun stdout_of :: "event list \<Rightarrow> string list" where
  "stdout_of [] = []"
| "stdout_of (Stdout l # es) = l # stdout_of es"
| "stdout_of (e # es) = stdout_of es"

fun stderr_of :: "event list \<Rightarrow> string list" where
  "stderr_of [] = []"
| "stderr_of (Stderr l # es) = l # stderr_of es"
| "stderr_of (e # es) = stderr_of es"

fun exits_of :: "event list \<Rightarrow> int list" where
  "exits_of [] = []"
| "exits_of (Exit c # es) = c # exits_of es"
| "exits_of (e # es) = exits_of es"

text \<open>
  The payload built at the head of \<^verbatim>\<open>handleHookPayload\<close>:
  \<^verbatim>\<open>{...inputData, hook_type: hook_type}\<close>.
\<close>

definition payload :: "json \<Rightarrow> string \<Rightarrow> json" where
  "payload inputData hook_type = JObj (obj_set (spread inputData) ''hook_type'' (JStr hook_type))"

definition payload_hook_type :: "json \<Rightarrow> json option" where
  "payload_hook_type p = (case p of JObj kvs \<Rightarrow> obj_get kvs ''hook_type'' | _ \<Rightarrow> None)"

text \<open>
  One arm of the switch: \<^verbatim>\<open>if (handlers.x) { response = await handlers.x(payload) }\<close>.
  The result is the response so far, or the error with which the \<^verbatim>\<open>await\<close> throws, for
  a synchronous throw and for a rejected promise alike.
\<close>

definition await_handler :: "handler option \<Rightarrow> json \<Rightarrow> json \<Rightarrow> string + json" where
  "await_handler h p response =
     (case h of
        None \<Rightarrow> Inr response
      | Some f \<Rightarrow> (case f p of Returns r \<Rightarrow> Inr r | Throws e \<Rightarrow> Inl e | Rejects e \<Rightarrow> Inl e))"

text \<open>
  The two ways an arm ends.  After \<^verbatim>\<open>break\<close> the response is printed by the
  \<^verbatim>\<open>console.log\<close> that follows the switch; the arms of \<^verbatim>\<open>Stop\<close> and
  \<^verbatim>\<open>SubagentStop\<close> print it themselves and call \<^verbatim>\<open>process.exit(0)\<close>.  The pair
  returned is the events of the call and, if the promise of \<^verbatim>\<open>handleHookPayload\<close>
  rejects, the reason.
\<close>

definition break_and_log :: "string + json \<Rightarrow> event list \<times> string option" where
  "break_and_log r =
     (case r of Inl e \<Rightarrow> ([], Some e) | Inr response \<Rightarrow> ([Stdout (stringify response)], None))"

definition log_and_exit :: "string + json \<Rightarrow> event list \<times> string option" where
  "log_and_exit r =
     (case r of Inl e \<Rightarrow> ([], Some e)
      | Inr response \<Rightarrow> ([Stdout (stringify response), Exit 0], None))"

definition handleHookPayload ::
  "json \<Rightarrow> string \<Rightarrow> HookHandlers \<Rightarrow> event list \<times> string option" where
  "handleHookPayload inputData hook_type handlers =
     (let p = payload inputData hook_type;
          response = JObj [];
          t = payload_hook_type p
      in if t = Some (JStr ''PreToolUse'') then
           break_and_log (await_handler (preToolUse handlers) p response)
         else if t = Some (JStr ''PostToolUse'') then
           break_and_log (await_handler (postToolUse handlers) p response)
         else if t = Some (JStr ''Notification'') then
           break_and_log (await_handler (notification handlers) p response)
         else if t = Some (JStr ''Stop'') then
           log_and_exit (await_handler (stop handlers) p response)
         else if t = Some (JStr ''SubagentStop'') then
           log_and_exit (await_handler (subagentStop handlers) p response)
         else if t = Some (JStr ''UserPromptSubmit'') then
           break_and_log (await_handler (userPromptSubmit handlers) p response)
         else if t = Some (JStr ''PreCompact'') then
           break_and_log (await_handler (preCompact handlers) p response)
         else if t = Some (JStr ''SessionStart'') then
           break_and_log (await_handler (sessionStart handlers) p response)
         else break_and_log (Inr response))"

text \<open>
  \<^verbatim>\<open>runHook\<close>: the state of the process is the input buffer and the events so far.
  \<^verbatim>\<open>JSON.parse\<close> is a parameter, \<open>None\<close> where it throws.  Once the process has exited
  no listener runs.  The handler is run to its end within the \<^verbatim>\<open>data\<close> event that
  started it; \<open>catch_log\<close> is the callback given to \<^verbatim>\<open>.catch\<close>.
\<close>

record process =
  buffer :: string
  trace :: "event list"

definition exited :: "process \<Rightarrow> bool" where
  "exited st = (exits_of (trace st) \<noteq> [])"

definition catch_log :: "event list \<times> string option \<Rightarrow> event list" where
  "catch_log r =
     (case r of
        (evs, None) \<Rightarrow> evs
      | (evs, Some error) \<Rightarrow>
          evs @ [Stderr (''Hook error: '' @ error),
                 Stdout (stringify (JObj [(''action'', JStr ''continue'')]))])"

definition on_data ::
  "(string \<Rightarrow> json option) \<Rightarrow> HookHandlers \<Rightarrow> string \<Rightarrow> process \<Rightarrow> string \<Rightarrow> process" where
  "on_data parse handlers hook_type st chunk =
     (if exited st then st
      else
        let buf = buffer st @ chunk in
        case parse buf of
          None \<Rightarrow> st\<lparr>buffer := buf\<rparr>
        | Some inputData \<Rightarrow>
            \<lparr>buffer = [],
             trace = trace st @ catch_log (handleHookPayload inputData hook_type handlers)\<rparr>)"

definition on_end :: "process \<Rightarrow> process" where
  "on_end st =
     (if exited st then st
      else if trim (buffer st) \<noteq> [] then
        st\<lparr>trace := trace st @ [Stderr (''Incomplete JSON in buffer: '' @ buffer st)]\<rparr>
      else st)"

definition runHook ::
  "(string \<Rightarrow> json option) \<Rightarrow> HookHandlers \<Rightarrow> string \<Rightarrow> string list \<Rightarrow> process" where
  "runHook parse handlers hook_type chunks =
     on_end (foldl (on_data parse handlers hook_type) \<lparr>buffer = [], trace = []\<rparr> chunks)"

section \<open>The transcript store\<close>

text \<open>
  A transcript message is the value that \<^verbatim>\<open>JSON.parse\<close> gives for a line.  The
  interfaces \<^verbatim>\<open>TranscriptSummary\<close>, \<^verbatim>\<open>TranscriptUserMessage\<close> and
  \<^verbatim>\<open>TranscriptAssistantMessage\<close> exist at compile time only: the cast
  \<^verbatim>\<open>JSON.parse(line) as T\<close> checks nothing, and the query functions read the
  properties of whatever value the line holds.  Reading a property of \<^verbatim>\<open>undefined\<close>
  or \<^verbatim>\<open>null\<close> throws a \<^verbatim>\<open>TypeError\<close>, and so does calling a method that the
  value does not have.
\<close>

text \<open>JavaScript's truthiness of a JSON value.\<close>

definition truthy :: "json \<Rightarrow> bool" where
  "truthy v =
     (case v of JNull \<Rightarrow> False | JBool b \<Rightarrow> b | JNum n \<Rightarrow> n \<noteq> 0 | JStr s \<Rightarrow> s \<noteq> []
      | _ \<Rightarrow> True)"

definition TypeError :: string where
  "TypeError = ''TypeError''"

text \<open>
  \<open>own v k\<close> is the property \<open>k\<close> of a value \<open>v\<close> that is not \<^verbatim>\<open>null\<close>, the result
  \<open>None\<close> standing for \<^verbatim>\<open>undefined\<close>: a field of an object, an element or the length
  of an array or of a string.  The names that the query functions read are not names of
  inherited properties.  \<open>read_prop x k\<close> is the expression \<^verbatim>\<open>x.k\<close>, where \<open>x\<close> may be
  \<^verbatim>\<open>undefined\<close> or \<^verbatim>\<open>null\<close>.
\<close>

fun own :: "json \<Rightarrow> string \<Rightarrow> json option" where
  "own (JObj kvs) k = obj_get kvs k"
| "own (JArr xs) k =
     (if k = ''length'' then Some (JNum (int (length xs))) else map_of (indexed 0 xs) k)"
| "own (JStr s) k =
     (if k = ''length'' then Some (JNum (int (length s)))
      else map_of (indexed 0 (map (\<lambda>c. JStr [c]) s)) k)"
| "own v k = None"

definition read_prop :: "json option \<Rightarrow> string \<Rightarrow> string + json option" where
  "read_prop x k =
     (case x of
        None \<Rightarrow> Inl TypeError
      | Some JNull \<Rightarrow> Inl TypeError
      | Some v \<Rightarrow> Inr (own v k))"

text \<open>Sequencing of steps that may throw, and a loop over a list that stops at a throw.\<close>

definition and_then :: "string + 'a \<Rightarrow> ('a \<Rightarrow> string + 'b) \<Rightarrow> string + 'b" where
  "and_then r f = (case r of Inl e \<Rightarrow> Inl e | Inr x \<Rightarrow> f x)"

fun collect :: "('a \<Rightarrow> string + 'b list) \<Rightarrow> 'a list \<Rightarrow> string + 'b list" where
  "collect f [] = Inr []"
| "collect f (x # xs) =
     and_then (f x) (\<lambda>ys. and_then (collect f xs) (\<lambda>zs. Inr (ys @ zs)))"

text \<open>
  The conversion of an element to a string by \<^verbatim>\<open>Array.prototype.join\<close>: \<^verbatim>\<open>null\<close>
  gives the empty string, an array its elements joined by commas, an object
  \<^verbatim>\<open>[object Object]\<close>.
\<close>

fun join_element :: "json \<Rightarrow> string" where
  "join_element JNull = []"
| "join_element (JBool b) = (if b then ''true'' else ''false'')"
| "join_element (JNum n) = show_int n"
| "join_element (JStr s) = s"
| "join_element (JArr xs) = join '','' (map join_element xs)"
| "join_element (JObj kvs) = ''[object Object]''"

text \<open>
  The expressions \<^verbatim>\<open>message.type\<close> and \<^verbatim>\<open>message.message.content\<close>.
\<close>

definition message_type :: "json \<Rightarrow> string + json option" where
  "message_type message = read_prop (Some message) ''type''"

definition message_content :: "json \<Rightarrow> string + json option" where
  "message_content message =
     and_then (read_prop (Some message) ''message'') (\<lambda>inner. read_prop inner ''content'')"

text \<open>
  Reading a file through \<^verbatim>\<open>fs.createReadStream\<close> and \<^verbatim>\<open>readline\<close> delivers lines
  and then either ends or fails: the pair is the lines delivered and the error, if any, with
  which the iteration then throws.  A file that cannot be opened is \<open>([], Some e)\<close>.
\<close>

type_synonym file_read = "string list \<times> string option"

text \<open>
  \<^verbatim>\<open>tryParseJSON\<close>.  The parameter \<open>parse\<close> is \<^verbatim>\<open>JSON.parse\<close>, \<open>None\<close> where it
  throws.
\<close>

definition tryParseJSON :: "(string \<Rightarrow> json option) \<Rightarrow> string \<Rightarrow> json option" where
  "tryParseJSON parse line = (if trim line = [] then None else parse line)"

text \<open>
  \<^verbatim>\<open>readTranscriptLines\<close> is a generator.  Its model is the list of the messages it yields,
  each with the number of lines pulled from the file when it is yielded, and the error with
  which it throws once the lines are exhausted.  A line is yielded when it parses to a
  truthy value.  A consumer that stops at a message has made the generator pull that many
  lines and no more.
\<close>

fun yields :: "(string \<Rightarrow> json option) \<Rightarrow> nat \<Rightarrow> string list \<Rightarrow> (nat \<times> json) list" where
  "yields parse k [] = []"
| "yields parse k (line # rest) =
     (case tryParseJSON parse line of
        None \<Rightarrow> yields parse (Suc k) rest
      | Some message \<Rightarrow>
          (if truthy message then (Suc k, message) # yields parse (Suc k) rest
           else yields parse (Suc k) rest))"

definition readTranscriptLines ::
  "(string \<Rightarrow> json option) \<Rightarrow> file_read \<Rightarrow> (nat \<times> json) list \<times> string option" where
  "readTranscriptLines parse f = (yields parse 0 (fst f), snd f)"

text \<open>The result of a scan, the number of lines it pulled, and what it logged.\<close>

record 'a scan =
  result :: 'a
  lines_read :: nat
  logged :: "event list"

text \<open>
  How a loop over the generator ends: it leaves at a message (by \<^verbatim>\<open>return\<close> or
  \<^verbatim>\<open>break\<close>), its body throws at a message, or the generator is exhausted.  The number
  is that of the lines pulled up to there.
\<close>

datatype 'a ending = Leaves 'a nat | Throws_at string nat | Exhausted

subsection \<open>getInitialMessage\<close>

text \<open>
  The callback of the filter on an array content, with the \<^verbatim>\<open>map\<close> that follows: the
  content of an item of type \<^verbatim>\<open>text\<close> whose content is a string.  It throws on an
  item that is \<^verbatim>\<open>null\<close>.
\<close>

definition initial_item :: "json \<Rightarrow> string + string list" where
  "initial_item item =
     and_then (read_prop (Some item) ''type'') (\<lambda>t.
       if t = Some (JStr ''text'') then
         and_then (read_prop (Some item) ''content'') (\<lambda>c.
           case c of Some (JStr s) \<Rightarrow> Inr [s] | _ \<Rightarrow> Inr [])
       else Inr [])"

text \<open>
  The body of the loop of \<^verbatim>\<open>getInitialMessage\<close>: the text with which the function
  returns at this message, \<open>None\<close> when the loop goes on to the next message, or the error
  that the body throws.
\<close>

definition initial_text :: "json \<Rightarrow> string + string option" where
  "initial_text message =
     and_then (message_type message) (\<lambda>t.
       if t = Some (JStr ''user'') then
         and_then (read_prop (Some message) ''message'') (\<lambda>inner.
           and_then (read_prop inner ''role'') (\<lambda>role.
             if role = Some (JStr ''user'') then
               and_then (message_content message) (\<lambda>content.
                 case content of
                   Some (JStr s) \<Rightarrow> Inr (Some s)
                 | Some (JArr items) \<Rightarrow>
                     and_then (collect initial_item items) (\<lambda>texts.
                       let textContent = join [CHR 0x0A] texts
                       in if textContent \<noteq> [] then Inr (Some textContent) else Inr None)
                 | _ \<Rightarrow> Inr None)
             else Inr None))
       else Inr None)"

fun initial_loop :: "(nat \<times> json) list \<Rightarrow> string ending" where
  "initial_loop [] = Exhausted"
| "initial_loop ((k, message) # rest) =
     (case initial_text message of
        Inl error \<Rightarrow> Throws_at error k
      | Inr (Some s) \<Rightarrow> Leaves s k
      | Inr None \<Rightarrow> initial_loop rest)"

text \<open>
  The \<^verbatim>\<open>try\<close> of \<^verbatim>\<open>getInitialMessage\<close> encloses the loop: an error of the read and an
  error thrown by the body are both logged and give \<^verbatim>\<open>null\<close>.
\<close>

definition getInitialMessage :: "(string \<Rightarrow> json option) \<Rightarrow> file_read \<Rightarrow> string option scan" where
  "getInitialMessage parse f =
     (case readTranscriptLines parse f of (ys, failure) \<Rightarrow>
        (case initial_loop ys of
           Leaves s k \<Rightarrow> \<lparr>result = Some s, lines_read = k, logged = []\<rparr>
         | Throws_at error k \<Rightarrow>
             \<lparr>result = None, lines_read = k,
              logged = [Stderr (''Error reading transcript: '' @ error)]\<rparr>
         | Exhausted \<Rightarrow>
             (case failure of
                None \<Rightarrow> \<lparr>result = None, lines_read = length (fst f), logged = []\<rparr>
              | Some error \<Rightarrow>
                  \<lparr>result = None, lines_read = length (fst f),
                   logged = [Stderr (''Error reading transcript: '' @ error)]\<rparr>)))"

subsection \<open>getAllMessages and the cache\<close>

text \<open>
  The module keeps \<^verbatim>\<open>transcriptCache\<close>, a map from path to \<^verbatim>\<open>{data, timestamp}\<close>.
  The store below is that map together with the list of the paths opened for reading so
  far.  The file system gives each path the outcome of reading it.  \<^verbatim>\<open>Date.now()\<close> is
  read twice, at the cache check (\<open>now\<close>) and when the entry is stored (\<open>now'\<close>).
\<close>

definition CACHE_TTL :: int where
  "CACHE_TTL = 5 * 60 * 1000"

record store =
  transcriptCache :: "string \<Rightarrow> (json list \<times> int) option"
  opened :: "string list"

definition cache_lookup :: "store \<Rightarrow> string \<Rightarrow> bool \<Rightarrow> int \<Rightarrow> json list option" where
  "cache_lookup st transcriptPath useCache now =
     (if useCache then
        (case transcriptCache st transcriptPath of
           Some (cached_data, cached_timestamp) \<Rightarrow>
             (if now - cached_timestamp < CACHE_TTL then Some cached_data else None)
         | None \<Rightarrow> None)
      else None)"

definition getAllMessages ::
  "(string \<Rightarrow> json option) \<Rightarrow> (string \<Rightarrow> file_read) \<Rightarrow> store \<Rightarrow> string \<Rightarrow> bool \<Rightarrow>
     int \<Rightarrow> int \<Rightarrow> (json list \<times> event list) \<times> store" where
  "getAllMessages parse files st transcriptPath useCache now now' =
     (case cache_lookup st transcriptPath useCache now of
        Some cached_data \<Rightarrow> ((cached_data, []), st)
      | None \<Rightarrow>
          (case readTranscriptLines parse (files transcriptPath) of (ys, failure) \<Rightarrow>
             (let messages = map snd ys;
                  st1 = st\<lparr>opened := opened st @ [transcriptPath]\<rparr>
              in case failure of
                   None \<Rightarrow>
                     ((messages, []),
                      (if useCache then
                         st1\<lparr>transcriptCache :=
                               (transcriptCache st1)(transcriptPath \<mapsto> (messages, now'))\<rparr>
                       else st1))
                 | Some error \<Rightarrow>
                     ((messages, [Stderr (''Error reading transcript: '' @ error)]), st1))))"

subsection \<open>getToolUsage\<close>

text \<open>
  The callback of the filter of \<^verbatim>\<open>streamToolUsage\<close> with the record yielded for an item
  that passes: the tool name, the input and \<^verbatim>\<open>message.timestamp\<close>.
\<close>

definition tool_use_item :: "json option \<Rightarrow> json \<Rightarrow> string + (string \<times> json \<times> json option) list" where
  "tool_use_item ts item =
     and_then (read_prop (Some item) ''type'') (\<lambda>t.
       if t = Some (JStr ''tool_use'') then
         and_then (read_prop (Some item) ''name'') (\<lambda>n.
           case n of
             Some (JStr name) \<Rightarrow>
               and_then (read_prop (Some item) ''input'') (\<lambda>i.
                 case i of
                   Some v \<Rightarrow> (if truthy v then Inr [(name, v, ts)] else Inr [])
                 | None \<Rightarrow> Inr [])
           | _ \<Rightarrow> Inr [])
       else Inr [])"

text \<open>
  The body of the loop of \<^verbatim>\<open>streamToolUsage\<close>.  The method \<^verbatim>\<open>filter\<close> exists on an
  array only: on any other content the call throws.
\<close>

definition streamToolUsage_message :: "json \<Rightarrow> string + (string \<times> json \<times> json option) list" where
  "streamToolUsage_message message =
     and_then (message_type message) (\<lambda>t.
       if t = Some (JStr ''assistant'') then
         and_then (message_content message) (\<lambda>content.
           case content of
             Some (JArr items) \<Rightarrow>
               and_then (read_prop (Some message) ''timestamp'') (\<lambda>ts.
                 collect (tool_use_item ts) items)
           | _ \<Rightarrow> Inl TypeError)
       else Inr [])"

text \<open>
  The functions below have no \<^verbatim>\<open>try\<close>: when the body of the loop or the iteration
  throws, their promise rejects with the error (\<open>Inl\<close>).  The body runs on the messages in
  order, so an error of the body comes before an error of the read.
\<close>

definition getToolUsage ::
  "(string \<Rightarrow> json option) \<Rightarrow> file_read \<Rightarrow> string + (string \<times> json \<times> json option) list" where
  "getToolUsage parse f =
     (case readTranscriptLines parse f of (ys, failure) \<Rightarrow>
        and_then (collect (\<lambda>y. streamToolUsage_message (snd y)) ys) (\<lambda>toolUsage.
          case failure of None \<Rightarrow> Inr toolUsage | Some error \<Rightarrow> Inl error))"

subsection \<open>getLastNMessages\<close>

definition push_shift :: "int \<Rightarrow> json list \<Rightarrow> json \<Rightarrow> json list" where
  "push_shift n messages message =
     (let pushed = messages @ [message]
      in if int (length pushed) > n then tl pushed else pushed)"

definition getLastNMessages ::
  "(string \<Rightarrow> json option) \<Rightarrow> file_read \<Rightarrow> int \<Rightarrow> string + json list" where
  "getLastNMessages parse f n =
     (case readTranscriptLines parse f of
        (ys, None) \<Rightarrow> Inr (foldl (push_shift n) [] (map snd ys))
      | (ys, Some error) \<Rightarrow> Inl error)"

subsection \<open>searchMessages\<close>

record search_options =
  caseSensitive :: "bool option"
  limit :: "int option"

text \<open>
  The filter and the map on the content of an assistant message: the text of an item of
  type \<^verbatim>\<open>text\<close> whose text is truthy, as it enters the \<^verbatim>\<open>join\<close>.  The filter throws
  on an item that is \<^verbatim>\<open>null\<close>; without case sensitivity the map calls
  \<^verbatim>\<open>toLowerCase\<close>, which only a string has.  Every error is a \<^verbatim>\<open>TypeError\<close>, so the
  two passes are modelled as one.
\<close>

definition search_item :: "bool \<Rightarrow> json \<Rightarrow> string + string list" where
  "search_item cs item =
     and_then (read_prop (Some item) ''type'') (\<lambda>t.
       if t = Some (JStr ''text'') then
         and_then (read_prop (Some item) ''text'') (\<lambda>x.
           case x of
             Some v \<Rightarrow>
               (if truthy v then
                  (if cs then Inr [join_element v]
                   else (case v of JStr s \<Rightarrow> Inr [toLowerCase s] | _ \<Rightarrow> Inl TypeError))
                else Inr [])
           | None \<Rightarrow> Inr [])
       else Inr [])"

text \<open>
  The body of the loop of \<^verbatim>\<open>searchMessages\<close> up to the flag \<^verbatim>\<open>found\<close>.  A message of
  type \<^verbatim>\<open>user\<close> whose content is not a string is not found: the second branch asks
  for the type \<^verbatim>\<open>assistant\<close>.
\<close>

definition found :: "bool \<Rightarrow> string \<Rightarrow> json \<Rightarrow> string + bool" where
  "found cs searchLower message =
     and_then (message_type message) (\<lambda>t.
       if t = Some (JStr ''user'') then
         and_then (message_content message) (\<lambda>content.
           case content of
             Some (JStr s) \<Rightarrow> Inr (includes_str (if cs then s else toLowerCase s) searchLower)
           | _ \<Rightarrow> Inr False)
       else if t = Some (JStr ''assistant'') then
         and_then (message_content message) (\<lambda>content.
           case content of
             Some (JArr items) \<Rightarrow>
               and_then (collect (search_item cs) items) (\<lambda>texts.
                 Inr (includes_str (concat texts) searchLower))
           | _ \<Rightarrow> Inl TypeError)
       else Inr False)"

text \<open>
  The loop of \<^verbatim>\<open>searchMessages\<close>, with the consumer taking every message it yields: the
  messages yielded and the way the loop ends.  The test \<^verbatim>\<open>limit && count >= limit\<close>
  takes an absent limit and the limit \<^verbatim>\<open>0\<close> alike as false.
\<close>

fun search_loop ::
  "(json \<Rightarrow> string + bool) \<Rightarrow> int option \<Rightarrow> int \<Rightarrow> (nat \<times> json) list \<Rightarrow>
     json list \<times> unit ending" where
  "search_loop fnd lim count [] = ([], Exhausted)"
| "search_loop fnd lim count ((k, message) # rest) =
     (case fnd message of
        Inl error \<Rightarrow> ([], Throws_at error k)
      | Inr True \<Rightarrow>
          (if (case lim of Some l \<Rightarrow> l \<noteq> 0 \<and> count + 1 \<ge> l | None \<Rightarrow> False)
           then ([message], Leaves () k)
           else (case search_loop fnd lim (count + 1) rest of
                   (out, halt) \<Rightarrow> (message # out, halt)))
      | Inr False \<Rightarrow> search_loop fnd lim count rest)"

definition searchMessages ::
  "(string \<Rightarrow> json option) \<Rightarrow> file_read \<Rightarrow> string \<Rightarrow> search_options \<Rightarrow>
     (json list \<times> string option) scan" where
  "searchMessages parse f searchText options =
     (let cs = (case caseSensitive options of Some b \<Rightarrow> b | None \<Rightarrow> False);
          searchLower = (if cs then searchText else toLowerCase searchText)
      in case readTranscriptLines parse f of (ys, failure) \<Rightarrow>
           (case search_loop (found cs searchLower) (limit options) 0 ys of
              (out, Leaves u k) \<Rightarrow> \<lparr>result = (out, None), lines_read = k, logged = []\<rparr>
            | (out, Throws_at error k) \<Rightarrow>
                \<lparr>result = (out, Some error), lines_read = k, logged = []\<rparr>
            | (out, Exhausted) \<Rightarrow>
                \<lparr>result = (out, failure), lines_read = length (fst f), logged = []\<rparr>))"

subsection \<open>getSessionMetadata\<close>

record session_metadata =
  md_sessionId :: "json option"
  md_version :: "json option"
  md_cwd :: "json option"
  md_gitBranch :: "json option"
  md_firstTimestamp :: "json option"
  md_lastTimestamp :: "json option"

text \<open>
  The body of the loop: the pair is \<^verbatim>\<open>firstMessage\<close> and \<^verbatim>\<open>lastMessage\<close>, \<open>None\<close>
  for \<^verbatim>\<open>null\<close>.
\<close>

definition metadata_step ::
  "json option \<times> json option \<Rightarrow> json \<Rightarrow> string + json option \<times> json option" where
  "metadata_step fl message =
     and_then (message_type message) (\<lambda>t.
       if t = Some (JStr ''user'') \<or> t = Some (JStr ''assistant'') then
         Inr ((case fst fl of None \<Rightarrow> Some message | Some first \<Rightarrow> Some first), Some message)
       else Inr fl)"

fun metadata_loop ::
  "json option \<times> json option \<Rightarrow> json list \<Rightarrow> string + json option \<times> json option" where
  "metadata_loop fl [] = Inr fl"
| "metadata_loop fl (message # rest) =
     and_then (metadata_step fl message) (\<lambda>fl'. metadata_loop fl' rest)"

definition getSessionMetadata ::
  "(string \<Rightarrow> json option) \<Rightarrow> file_read \<Rightarrow> string + session_metadata" where
  "getSessionMetadata parse f =
     (case readTranscriptLines parse f of (ys, failure) \<Rightarrow>
        and_then (metadata_loop (None, None) (map snd ys)) (\<lambda>fl.
          case failure of
            Some error \<Rightarrow> Inl error
          | None \<Rightarrow>
              (case fl of
                 (None, lastMessage) \<Rightarrow>
                   Inr \<lparr>md_sessionId = None, md_version = None, md_cwd = None,
                        md_gitBranch = None, md_firstTimestamp = None,
                        md_lastTimestamp = None\<rparr>
               | (Some firstMessage, lastMessage) \<Rightarrow>
                   and_then (read_prop (Some firstMessage) ''sessionId'') (\<lambda>sid.
                   and_then (read_prop (Some firstMessage) ''version'') (\<lambda>ver.
                   and_then (read_prop (Some firstMessage) ''cwd'') (\<lambda>dir.
                   and_then (read_prop (Some firstMessage) ''gitBranch'') (\<lambda>branch.
                   and_then (read_prop (Some firstMessage) ''timestamp'') (\<lambda>ts.
                   and_then (case lastMessage of
                               None \<Rightarrow> Inr None
                             | Some m \<Rightarrow> read_prop (Some m) ''timestamp'') (\<lambda>lts.
                     Inr \<lparr>md_sessionId = sid, md_version = ver, md_cwd = dir,
                          md_gitBranch = branch, md_firstTimestamp = ts,
                          md_lastTimestamp = lts\<rparr>)))))))))"

section \<open>Notions used in the statements\<close>

text \<open>
  The handler that the switch of \<^verbatim>\<open>handleHookPayload\<close> reaches for a category, and the
  categories whose arm calls \<^verbatim>\<open>process.exit\<close>.
\<close>

definition registered :: "HookHandlers \<Rightarrow> string \<Rightarrow> handler option" where
  "registered handlers hook_type =
     (if hook_type = ''PreToolUse'' then preToolUse handlers
      else if hook_type = ''PostToolUse'' then postToolUse handlers
      else if hook_type = ''Notification'' then notification handlers
      else if hook_type = ''Stop'' then stop handlers
      else if hook_type = ''SubagentStop'' then subagentStop handlers
      else if hook_type = ''UserPromptSubmit'' then userPromptSubmit handlers
      else if hook_type = ''PreCompact'' then preCompact handlers
      else if hook_type = ''SessionStart'' then sessionStart handlers
      else None)"

definition terminal :: "string \<Rightarrow> bool" where
  "terminal hook_type = (hook_type = ''Stop'' \<or> hook_type = ''SubagentStop'')"

text \<open>
  The response line as the specification words it: the serialised result of the handler
  \<open>H\<close> on the tagged payload; \<^verbatim>\<open>{}\<close> when no handler is registered; the fixed safe
  default when the handler fails.
\<close>

definition spec_response :: "HookHandlers \<Rightarrow> string \<Rightarrow> json \<Rightarrow> string" where
  \<open>spec_response handlers C P =
     (case registered handlers C of
        None \<Rightarrow> ''{}''
      | Some H \<Rightarrow>
          (case H (payload P C) of
             Returns r \<Rightarrow> stringify r
           | Throws e \<Rightarrow> ''{"action":"continue"}''
           | Rejects e \<Rightarrow> ''{"action":"continue"}''))\<close>

text \<open>
  A concrete run: the payload text arrives in two chunks, and \<open>demo_parse\<close> is
  \<^verbatim>\<open>JSON.parse\<close> restricted to that text (it throws on everything else).  Of the
  handlers, \<^verbatim>\<open>preToolUse\<close> returns a decision, \<^verbatim>\<open>stop\<close> throws and
  \<^verbatim>\<open>subagentStop\<close> rejects.
\<close>

definition demo_text :: string where
  \<open>demo_text = ''{"session_id":"s1","hook_event_name":"Stop"}''\<close>

definition demo_value :: json where
  "demo_value = JObj [(''session_id'', JStr ''s1''), (''hook_event_name'', JStr ''Stop'')]"

definition demo_parse :: "string \<Rightarrow> json option" where
  "demo_parse s = (if s = demo_text then Some demo_value else None)"

definition demo_chunks :: "string list" where
  \<open>demo_chunks = [''{"session_id":"s1",'', ''"hook_event_name":"Stop"}'']\<close>

definition demo_handlers :: HookHandlers where
  "demo_handlers =
     \<lparr>preToolUse = Some (\<lambda>p. Returns (JObj [(''permissionDecision'', JStr ''allow'')])),
      postToolUse = None,
      notification = None,
      stop = Some (\<lambda>p. Throws ''boom''),
      subagentStop = Some (\<lambda>p. Rejects ''late''),
      userPromptSubmit = None,
      preCompact = None,
      sessionStart = None\<rparr>"


text \<open>
  The messages of a transcript: the truthy values that its lines give under
  \<^verbatim>\<open>tryParseJSON\<close>, in order, the other lines left out.
\<close>

definition messages :: "(string \<Rightarrow> json option) \<Rightarrow> string list \<Rightarrow> json list" where
  "messages parse lines = filter truthy (List.map_filter (tryParseJSON parse) lines)"

text \<open>
  The first user message and its textual content, as the specification of
  \<^verbatim>\<open>getInitialMessage\<close> words them: the first message whose role is \<^verbatim>\<open>user\<close>, and
  its text, which is the string content or the text items joined.
\<close>

definition message_role :: "json \<Rightarrow> string + json option" where
  "message_role message =
     and_then (read_prop (Some message) ''message'') (\<lambda>inner. read_prop inner ''role'')"

definition is_user_role :: "json \<Rightarrow> bool" where
  "is_user_role message =
     (message_type message = Inr (Some (JStr ''user'')) \<and>
      message_role message = Inr (Some (JStr ''user'')))"

fun is_object :: "json \<Rightarrow> bool" where
  "is_object (JObj kvs) = True"
| "is_object v = False"

fun item_text :: "json \<Rightarrow> string list" where
  "item_text (JObj kvs) =
     (if obj_get kvs ''type'' = Some (JStr ''text'') then
        (case obj_get kvs ''content'' of Some (JStr s) \<Rightarrow> [s] | _ \<Rightarrow> [])
      else [])"
| "item_text v = []"

definition text_items :: "json list \<Rightarrow> string list" where
  "text_items items = concat (map item_text items)"

definition textual_content :: "json \<Rightarrow> string" where
  "textual_content message =
     (case message_content message of
        Inr (Some (JStr s)) \<Rightarrow> s
      | Inr (Some (JArr items)) \<Rightarrow> join [CHR 0x0A] (text_items items)
      | _ \<Rightarrow> [])"

definition spec_initial_message :: "json list \<Rightarrow> string option" where
  "spec_initial_message ms = map_option textual_content (find is_user_role ms)"






text \<open>
  Concrete transcript lines and the values \<^verbatim>\<open>JSON.parse\<close> gives for them: a user
  message that carries a tool result, a user message with a string content, an assistant
  message with a text block and a tool use, a user message whose array content holds a text
  item, and a line of type \<^verbatim>\<open>user\<close> without a message object.  \<open>demo_line_parse\<close> is
  \<^verbatim>\<open>JSON.parse\<close> on these lines.
\<close>

definition demo_user :: "json \<Rightarrow> json" where
  "demo_user content =
     JObj [(''type'', JStr ''user''), (''sessionId'', JStr ''s1''), (''version'', JStr ''1.0.0''),
           (''cwd'', JStr ''/repo''), (''gitBranch'', JStr ''main''),
           (''timestamp'', JStr ''2025-01-01T00:00:00Z''),
           (''message'', JObj [(''role'', JStr ''user''), (''content'', content)])]"

definition line_result :: string where
  \<open>line_result =
     ''{"type":"user","sessionId":"s1","version":"1.0.0","cwd":"/repo","gitBranch":"main","timestamp":"2025-01-01T00:00:00Z","message":{"role":"user","content":[{"type":"tool_result","content":"ok"}]}}''\<close>

definition line_hello :: string where
  \<open>line_hello =
     ''{"type":"user","sessionId":"s1","version":"1.0.0","cwd":"/repo","gitBranch":"main","timestamp":"2025-01-01T00:00:00Z","message":{"role":"user","content":"Hello, an ERROR again"}}''\<close>

definition line_reply :: string where
  \<open>line_reply =
     ''{"type":"assistant","sessionId":"s1","version":"1.0.0","cwd":"/repo","gitBranch":"main","timestamp":"2025-01-01T00:00:00Z","message":{"role":"assistant","content":[{"type":"text","text":"An Error occurred"},{"type":"tool_use","name":"Bash","input":{"command":"ls"}}]}}''\<close>

definition line_items :: string where
  \<open>line_items =
     ''{"type":"user","sessionId":"s1","version":"1.0.0","cwd":"/repo","gitBranch":"main","timestamp":"2025-01-01T00:00:00Z","message":{"role":"user","content":[{"type":"text","content":"an error in a text item"}]}}''\<close>

definition line_bare :: string where
  \<open>line_bare = ''{"type":"user"}''\<close>

definition msg_result :: json where
  "msg_result =
     demo_user (JArr [JObj [(''type'', JStr ''tool_result''), (''content'', JStr ''ok'')]])"

definition msg_hello :: json where
  "msg_hello = demo_user (JStr ''Hello, an ERROR again'')"

definition msg_reply :: json where
  "msg_reply =
     JObj [(''type'', JStr ''assistant''), (''sessionId'', JStr ''s1''),
           (''version'', JStr ''1.0.0''), (''cwd'', JStr ''/repo''), (''gitBranch'', JStr ''main''),
           (''timestamp'', JStr ''2025-01-01T00:00:00Z''),
           (''message'',
            JObj [(''role'', JStr ''assistant''),
                  (''content'',
                   JArr [JObj [(''type'', JStr ''text''), (''text'', JStr ''An Error occurred'')],
                         JObj [(''type'', JStr ''tool_use''), (''name'', JStr ''Bash''),
                               (''input'', JObj [(''command'', JStr ''ls'')])]])])]"

definition msg_items :: json where
  "msg_items =
     demo_user (JArr [JObj [(''type'', JStr ''text''),
                            (''content'', JStr ''an error in a text item'')]])"

definition msg_bare :: json where
  "msg_bare = JObj [(''type'', JStr ''user'')]"

definition demo_line_parse :: "string \<Rightarrow> json option" where
  "demo_line_parse line =
     (if line = line_result then Some msg_result
      else if line = line_hello then Some msg_hello
      else if line = line_reply then Some msg_reply
      else if line = line_items then Some msg_items
      else if line = line_bare then Some msg_bare
      else None)"

definition demo_lines :: "string list" where
  "demo_lines = [line_result, line_hello, line_reply]"

text \<open>
  A file system in which \<^verbatim>\<open>t.jsonl\<close> holds the three lines and every other path fails
  to open, and the store of a fresh process.
\<close>

definition demo_files :: "string \<Rightarrow> file_read" where
  "demo_files path = (if path = ''t.jsonl'' then (demo_lines, None) else ([], Some ''ENOENT''))"

definition empty_store :: store where
  "empty_store = \<lparr>transcriptCache = (\<lambda>path. None), opened = []\<rparr>"

section \<open>The runner: buffering, dispatch and failure\<close>

lemma map_of_obj_set: "map_of (obj_set kvs k v) k = Some v"
proof (cases "k \<in> fst ` set kvs")
  case True
  then show ?thesis
    by (induction kvs) (auto simp: obj_set_def)
next
  case False
  then have "map_of kvs k = None"
    by (simp add: map_of_eq_None_iff)
  then show ?thesis using False
    by (simp add: obj_set_def map_add_def)
qed

lemma payload_tag: "payload_hook_type (payload d h) = Some (JStr h)"
  by (simp add: payload_hook_type_def payload_def obj_get_def map_of_obj_set)

lemma await_handler_None: "await_handler None p r = Inr r"
  by (simp add: await_handler_def)

lemma handle_by_tag:
  "handleHookPayload d h hs =
     (if terminal h then log_and_exit else break_and_log)
       (await_handler (registered hs h) (payload d h) (JObj []))"
  unfolding handleHookPayload_def Let_def payload_tag
  by (auto simp add: registered_def terminal_def await_handler_None)

lemma empty_chunks_idle:
  assumes "buffer st = []" and "parse [] = None" and "concat cs = []"
  shows "foldl (on_data parse hs h) st cs = st"
  using assms
proof (induction cs)
  case Nil
  then show ?case by simp
next
  case (Cons c cs)
  then have "on_data parse hs h st c = st"
    by (simp add: on_data_def)
  with Cons show ?case by simp
qed

lemma accumulate_until_complete:
  assumes "parse (b @ concat cs) = Some v"
    and "\<forall>p. strict_prefix p (b @ concat cs) \<longrightarrow> parse p = None"
    and "parse [] = None"
    and "concat cs \<noteq> []"
  shows "foldl (on_data parse hs h) \<lparr>buffer = b, trace = []\<rparr> cs =
           \<lparr>buffer = [], trace = catch_log (handleHookPayload v h hs)\<rparr>"
  using assms
proof (induction cs arbitrary: b)
  case Nil
  then show ?case by simp
next
  case (Cons c cs)
  show ?case
  proof (cases "concat cs = []")
    case True
    with Cons.prems have "parse (b @ c) = Some v" by simp
    then have step: "on_data parse hs h \<lparr>buffer = b, trace = []\<rparr> c =
        \<lparr>buffer = [], trace = catch_log (handleHookPayload v h hs)\<rparr>"
      by (simp add: on_data_def exited_def)
    show ?thesis
      using empty_chunks_idle [of "\<lparr>buffer = [], trace = catch_log (handleHookPayload v h hs)\<rparr>" parse cs hs h]
        True Cons.prems(3) step by simp
  next
    case False
    then have "strict_prefix (b @ c) (b @ concat (c # cs))"
      by (simp add: strict_prefix_def prefix_def)
    with Cons.prems have "parse (b @ c) = None" by blast
    then have step: "on_data parse hs h \<lparr>buffer = b, trace = []\<rparr> c = \<lparr>buffer = b @ c, trace = []\<rparr>"
      by (simp add: on_data_def exited_def)
    have "foldl (on_data parse hs h) \<lparr>buffer = b @ c, trace = []\<rparr> cs =
        \<lparr>buffer = [], trace = catch_log (handleHookPayload v h hs)\<rparr>"
      using Cons.IH [of "b @ c"] Cons.prems False by simp
    with step show ?thesis by simp
  qed
qed

lemma runHook_complete:
  assumes "parse (concat chunks) = Some v"
    and "\<forall>p. strict_prefix p (concat chunks) \<longrightarrow> parse p = None"
    and "parse [] = None"
  shows "runHook parse hs h chunks =
           \<lparr>buffer = [], trace = catch_log (handleHookPayload v h hs)\<rparr>"
proof -
  have ne: "concat chunks \<noteq> []"
  proof
    assume "concat chunks = []"
    with assms(1,3) show False by simp
  qed
  have "foldl (on_data parse hs h) \<lparr>buffer = [], trace = []\<rparr> chunks =
      \<lparr>buffer = [], trace = catch_log (handleHookPayload v h hs)\<rparr>"
    using accumulate_until_complete [of parse "[]" chunks v hs h] assms ne by simp
  then show ?thesis
    by (simp add: runHook_def on_end_def trim_def)
qed

lemma accumulate_incomplete:
  assumes "\<forall>p. strict_prefix p w \<longrightarrow> parse p = None"
    and "strict_prefix (concat cs) w"
  shows "foldl (on_data parse hs h) \<lparr>buffer = [], trace = []\<rparr> cs = \<lparr>buffer = concat cs, trace = []\<rparr>"
  using assms(2)
proof (induction cs rule: rev_induct)
  case Nil
  then show ?case by simp
next
  case (snoc c cs)
  have "prefix (concat cs) (concat (cs @ [c]))" by simp
  with snoc.prems have "strict_prefix (concat cs) w"
    using prefix_order.le_less_trans by blast
  with snoc.IH have before: "foldl (on_data parse hs h) \<lparr>buffer = [], trace = []\<rparr> cs = \<lparr>buffer = concat cs, trace = []\<rparr>"
    by simp
  have "parse (concat cs @ c) = None"
    using assms(1) snoc.prems by simp
  then have "on_data parse hs h \<lparr>buffer = concat cs, trace = []\<rparr> c = \<lparr>buffer = concat cs @ c, trace = []\<rparr>"
    by (simp add: on_data_def exited_def)
  with before show ?case by simp
qed

lemma safe_default_line:
  \<open>stringify (JObj [(''action'', JStr ''continue'')]) = ''{"action":"continue"}''\<close>
  by code_simp

lemma catch_log_rejected:
  \<open>catch_log ([], Some e) = [Stderr (''Hook error: '' @ e), Stdout ''{"action":"continue"}'']\<close>
  by (simp add: catch_log_def safe_default_line del: stringify.simps)

lemma handler_fails:
  assumes "registered hs h = Some H"
    and "H (payload v h) = Throws e \<or> H (payload v h) = Rejects e"
  shows "handleHookPayload v h hs = ([], Some e)"
  using assms
  by (auto simp add: handle_by_tag await_handler_def log_and_exit_def break_and_log_def)

lemma handler_completes:
  assumes "case registered hs h of None \<Rightarrow> r = JObj [] | Some H \<Rightarrow> H (payload v h) = Returns r"
  shows "await_handler (registered hs h) (payload v h) (JObj []) = Inr r"
  using assms
  by (auto simp add: await_handler_def split: option.splits)

lemma demo_concat: "concat demo_chunks = demo_text"
  by (simp add: demo_chunks_def demo_text_def)

lemma demo_complete: "demo_parse (concat demo_chunks) = Some demo_value"
  by (simp add: demo_concat demo_parse_def)

lemma demo_prefixes: "\<forall>p. strict_prefix p (concat demo_chunks) \<longrightarrow> demo_parse p = None"
  by (simp add: demo_concat demo_parse_def strict_prefix_def)

lemma demo_empty: "demo_parse [] = None"
  by (simp add: demo_parse_def demo_text_def)

text \<open>
  Claim C1.  When the chunks on standard input concatenate to a text that
  \<^verbatim>\<open>JSON.parse\<close> accepts, and it accepts no proper prefix of that text (nor the empty
  text), the runner only accumulates while the buffer is a proper prefix: after any number
  of chunks that do not complete the text, the buffer holds their concatenation and nothing
  has been written.  After the last chunk the buffer is empty and standard output holds
  exactly one line, the response for the parsed value.
\<close>

theorem runHook_buffers_until_complete:
  assumes "parse (concat chunks) = Some v"
    and "\<forall>p. strict_prefix p (concat chunks) \<longrightarrow> parse p = None"
    and "parse [] = None"
  shows "(\<forall>k. strict_prefix (concat (take k chunks)) (concat chunks) \<longrightarrow>
            foldl (on_data parse hs h) \<lparr>buffer = [], trace = []\<rparr> (take k chunks) =
              \<lparr>buffer = concat (take k chunks), trace = []\<rparr>) \<and>
         buffer (runHook parse hs h chunks) = [] \<and>
         stdout_of (trace (runHook parse hs h chunks)) = [spec_response hs h v]"
proof -
  have run: "runHook parse hs h chunks =
      \<lparr>buffer = [], trace = catch_log (handleHookPayload v h hs)\<rparr>"
    using assms by (rule runHook_complete)
  have out: "stdout_of (catch_log (handleHookPayload v h hs)) = [spec_response hs h v]"
  proof (cases "registered hs h")
    case None
    then show ?thesis
      by (simp add: handle_by_tag await_handler_None spec_response_def catch_log_def
          log_and_exit_def break_and_log_def)
  next
    case (Some H)
    show ?thesis
    proof (cases "H (payload v h)")
      case (Returns r)
      with Some show ?thesis
        by (simp add: handle_by_tag await_handler_def spec_response_def catch_log_def
            log_and_exit_def break_and_log_def del: stringify.simps)
    next
      case (Throws e)
      with Some have "handleHookPayload v h hs = ([], Some e)"
        by (simp add: handler_fails)
      with Some Throws show ?thesis
        by (simp add: catch_log_rejected spec_response_def)
    next
      case (Rejects e)
      with Some have "handleHookPayload v h hs = ([], Some e)"
        by (simp add: handler_fails)
      with Some Rejects show ?thesis
        by (simp add: catch_log_rejected spec_response_def)
    qed
  qed
  have acc: "\<forall>k. strict_prefix (concat (take k chunks)) (concat chunks) \<longrightarrow>
            foldl (on_data parse hs h) \<lparr>buffer = [], trace = []\<rparr> (take k chunks) =
              \<lparr>buffer = concat (take k chunks), trace = []\<rparr>"
    using accumulate_incomplete [OF assms(2)] by blast
  from run out acc show ?thesis by simp
qed

theorem runHook_buffers_until_complete_witness:
  \<open>demo_parse (concat demo_chunks) = Some demo_value \<and>
   demo_parse [] = None \<and>
   foldl (on_data demo_parse demo_handlers ''PreToolUse'') \<lparr>buffer = [], trace = []\<rparr> (take 1 demo_chunks) =
     \<lparr>buffer = ''{"session_id":"s1",'', trace = []\<rparr> \<and>
   buffer (runHook demo_parse demo_handlers ''PreToolUse'' demo_chunks) = [] \<and>
   stdout_of (trace (runHook demo_parse demo_handlers ''PreToolUse'' demo_chunks)) =
     [''{"permissionDecision":"allow"}'']\<close>
proof -
  note main = runHook_buffers_until_complete [OF demo_complete demo_prefixes demo_empty,
      of demo_handlers "''PreToolUse''"]
  have sp: "strict_prefix (concat (take 1 demo_chunks)) (concat demo_chunks)"
    by (simp add: demo_chunks_def strict_prefix_def)
  have first: \<open>concat (take 1 demo_chunks) = ''{"session_id":"s1",''\<close>
    by (simp add: demo_chunks_def)
  have resp: \<open>spec_response demo_handlers ''PreToolUse'' demo_value = ''{"permissionDecision":"allow"}''\<close>
    by code_simp
  from main sp have "foldl (on_data demo_parse demo_handlers ''PreToolUse'') \<lparr>buffer = [], trace = []\<rparr> (take 1 demo_chunks) =
     \<lparr>buffer = concat (take 1 demo_chunks), trace = []\<rparr>" by blast
  with main first resp demo_complete demo_empty show ?thesis
    by simp
qed


text \<open>
  Claim C2.  Whatever the parsed input is, the tagged payload carries the external category
  as its \<^verbatim>\<open>hook_type\<close>, and the handler that is awaited and the way the arm ends are
  those of the external category alone: two inputs \<open>d1\<close> and \<open>d2\<close>, which may differ in
  \<^verbatim>\<open>hook_event_name\<close> or carry a \<^verbatim>\<open>hook_type\<close> of their own, are dispatched to the
  same handler with the same tag.
\<close>

theorem dispatch_by_external_category:
  "payload_hook_type (payload d1 h) = Some (JStr h) \<and>
   payload_hook_type (payload d2 h) = Some (JStr h) \<and>
   handleHookPayload d1 h hs =
     (if terminal h then log_and_exit else break_and_log)
       (await_handler (registered hs h) (payload d1 h) (JObj [])) \<and>
   handleHookPayload d2 h hs =
     (if terminal h then log_and_exit else break_and_log)
       (await_handler (registered hs h) (payload d2 h) (JObj []))"
  by (simp only: payload_tag handle_by_tag simp_thms)

text \<open>
  Claim C3.  For a category with a registered handler that throws or rejects on the tagged
  payload, the run writes the diagnostic line to standard error and then the line
  \<^verbatim>\<open>{"action":"continue"}\<close> to standard output, and nothing else; the process does not
  exit.
\<close>

theorem handler_failure_safe_default:
  assumes "registered hs h = Some H"
    and "H (payload v h) = Throws e \<or> H (payload v h) = Rejects e"
    and "parse (concat chunks) = Some v"
    and "\<forall>p. strict_prefix p (concat chunks) \<longrightarrow> parse p = None"
    and "parse [] = None"
  shows \<open>trace (runHook parse hs h chunks) =
           [Stderr (''Hook error: '' @ e), Stdout ''{"action":"continue"}''] \<and>
         stdout_of (trace (runHook parse hs h chunks)) = [''{"action":"continue"}''] \<and>
         stderr_of (trace (runHook parse hs h chunks)) = [''Hook error: '' @ e] \<and>
         \<not> exited (runHook parse hs h chunks)\<close>
proof -
  have "runHook parse hs h chunks =
      \<lparr>buffer = [], trace = catch_log (handleHookPayload v h hs)\<rparr>"
    using assms(3-5) by (rule runHook_complete)
  moreover have "handleHookPayload v h hs = ([], Some e)"
    using assms(1,2) by (rule handler_fails)
  ultimately show ?thesis
    by (simp add: catch_log_rejected exited_def)
qed

theorem handler_failure_safe_default_witness:
  \<open>registered demo_handlers ''PreCompact'' = None \<and>
   registered demo_handlers ''SubagentStop'' = Some (\<lambda>p. Rejects ''late'') \<and>
   demo_parse (concat demo_chunks) = Some demo_value \<and>
   trace (runHook demo_parse demo_handlers ''SubagentStop'' demo_chunks) =
     [Stderr ''Hook error: late'', Stdout ''{"action":"continue"}'']\<close>
proof -
  have reg: "registered demo_handlers ''SubagentStop'' = Some (\<lambda>p. Rejects ''late'')"
    by (simp add: registered_def demo_handlers_def)
  have none: "registered demo_handlers ''PreCompact'' = None"
    by (simp add: registered_def demo_handlers_def)
  have fails: "(\<lambda>p. Rejects ''late'') (payload demo_value ''SubagentStop'') = Throws ''late'' \<or>
      (\<lambda>p. Rejects ''late'') (payload demo_value ''SubagentStop'') = Rejects ''late''"
    by simp
  from handler_failure_safe_default [OF reg fails demo_complete demo_prefixes demo_empty]
    reg none demo_complete
  show ?thesis by simp
qed

text \<open>
  Claim C5, as stated, fails: with the category \<^verbatim>\<open>Stop\<close>, a payload that parses and a
  handler that throws, the run writes the safe default and never calls
  \<^verbatim>\<open>process.exit\<close>.
\<close>

theorem terminal_exit_counterexample:
  \<open>terminal ''Stop'' \<and>
   demo_parse (concat demo_chunks) = Some demo_value \<and>
   stdout_of (trace (runHook demo_parse demo_handlers ''Stop'' demo_chunks)) =
     [''{"action":"continue"}''] \<and>
   exits_of (trace (runHook demo_parse demo_handlers ''Stop'' demo_chunks)) = []\<close>
proof -
  have "runHook demo_parse demo_handlers ''Stop'' demo_chunks =
      \<lparr>buffer = [], trace = catch_log (handleHookPayload demo_value ''Stop'' demo_handlers)\<rparr>"
    using demo_complete demo_prefixes demo_empty by (rule runHook_complete)
  moreover have "handleHookPayload demo_value ''Stop'' demo_handlers = ([], Some ''boom'')"
    by (rule handler_fails [where H = "\<lambda>p. Throws ''boom''"])
      (simp_all add: registered_def demo_handlers_def)
  ultimately show ?thesis
    by (simp add: catch_log_rejected terminal_def demo_complete)
qed

text \<open>
  Claim C5, amended.  For a payload that parses: with the category \<^verbatim>\<open>Stop\<close> or
  \<^verbatim>\<open>SubagentStop\<close>, when no handler is registered (the response \<open>r\<close> is then the empty
  object) or the handler returns \<open>r\<close>, the run consists of the response line followed at
  once by \<^verbatim>\<open>process.exit(0)\<close>; with any other category the run never calls
  \<^verbatim>\<open>process.exit\<close>.
\<close>

theorem terminal_exit_after_response:
  assumes "parse (concat chunks) = Some v"
    and "\<forall>p. strict_prefix p (concat chunks) \<longrightarrow> parse p = None"
    and "parse [] = None"
  shows "(terminal h \<longrightarrow>
            (case registered hs h of None \<Rightarrow> r = JObj [] | Some H \<Rightarrow> H (payload v h) = Returns r) \<longrightarrow>
            trace (runHook parse hs h chunks) = [Stdout (stringify r), Exit 0]) \<and>
         (\<not> terminal h \<longrightarrow> exits_of (trace (runHook parse hs h chunks)) = [])"
proof -
  have run: "runHook parse hs h chunks =
      \<lparr>buffer = [], trace = catch_log (handleHookPayload v h hs)\<rparr>"
    using assms by (rule runHook_complete)
  have "trace (runHook parse hs h chunks) = [Stdout (stringify r), Exit 0]"
    if "terminal h"
      and "case registered hs h of None \<Rightarrow> r = JObj [] | Some H \<Rightarrow> H (payload v h) = Returns r"
  proof -
    from that(2) have "await_handler (registered hs h) (payload v h) (JObj []) = Inr r"
      by (rule handler_completes)
    with that(1) run show ?thesis
      by (simp add: handle_by_tag log_and_exit_def catch_log_def del: stringify.simps)
  qed
  moreover have "exits_of (trace (runHook parse hs h chunks)) = []" if "\<not> terminal h"
  proof (cases "await_handler (registered hs h) (payload v h) (JObj [])")
    case (Inl e)
    with that run show ?thesis
      by (simp add: handle_by_tag break_and_log_def catch_log_def del: stringify.simps)
  next
    case (Inr r')
    with that run show ?thesis
      by (simp add: handle_by_tag break_and_log_def catch_log_def del: stringify.simps)
  qed
  ultimately show ?thesis by blast
qed

theorem terminal_exit_after_response_witness:
  \<open>demo_parse (concat demo_chunks) = Some demo_value \<and>
   demo_parse [] = None \<and>
   terminal ''Stop'' \<and>
   registered (demo_handlers\<lparr>stop := None\<rparr>) ''Stop'' = None \<and>
   trace (runHook demo_parse (demo_handlers\<lparr>stop := None\<rparr>) ''Stop'' demo_chunks) =
     [Stdout ''{}'', Exit 0] \<and>
   \<not> terminal ''PreToolUse'' \<and>
   exits_of (trace (runHook demo_parse demo_handlers ''PreToolUse'' demo_chunks)) = []\<close>
proof -
  have t: "terminal ''Stop''" and nt: "\<not> terminal ''PreToolUse''"
    by (simp_all add: terminal_def)
  have reg: "registered (demo_handlers\<lparr>stop := None\<rparr>) ''Stop'' = None"
    by (simp add: registered_def)
  from terminal_exit_after_response [OF demo_complete demo_prefixes demo_empty,
      where h = "''Stop''" and hs = "demo_handlers\<lparr>stop := None\<rparr>" and r = "JObj []"] t reg
  have a: "trace (runHook demo_parse (demo_handlers\<lparr>stop := None\<rparr>) ''Stop'' demo_chunks) =
     [Stdout ''{}'', Exit 0]"
    by simp
  from terminal_exit_after_response [OF demo_complete demo_prefixes demo_empty,
      where h = "''PreToolUse''" and hs = demo_handlers] nt
  have b: "exits_of (trace (runHook demo_parse demo_handlers ''PreToolUse'' demo_chunks)) = []"
    by simp
  from a b t nt reg demo_complete demo_empty show ?thesis
    by simp
qed

text \<open>
  Claim C10.  When the handler registered for \<^verbatim>\<open>Stop\<close> or \<^verbatim>\<open>SubagentStop\<close> throws or
  rejects, the run never calls \<^verbatim>\<open>process.exit\<close>: the only line on standard output is the
  safe default written by the catch path, and the process has not exited.
\<close>

theorem terminal_handler_failure_no_exit:
  assumes "terminal h"
    and "registered hs h = Some H"
    and "H (payload v h) = Throws e \<or> H (payload v h) = Rejects e"
    and "parse (concat chunks) = Some v"
    and "\<forall>p. strict_prefix p (concat chunks) \<longrightarrow> parse p = None"
    and "parse [] = None"
  shows \<open>exits_of (trace (runHook parse hs h chunks)) = [] \<and>
         stdout_of (trace (runHook parse hs h chunks)) = [''{"action":"continue"}''] \<and>
         \<not> exited (runHook parse hs h chunks)\<close>
proof -
  have "runHook parse hs h chunks =
      \<lparr>buffer = [], trace = catch_log (handleHookPayload v h hs)\<rparr>"
    using assms(4-6) by (rule runHook_complete)
  moreover have "handleHookPayload v h hs = ([], Some e)"
    using assms(2,3) by (rule handler_fails)
  ultimately show ?thesis
    by (simp add: catch_log_rejected exited_def)
qed

theorem terminal_handler_failure_no_exit_witness:
  \<open>terminal ''Stop'' \<and>
   registered demo_handlers ''Stop'' = Some (\<lambda>p. Throws ''boom'') \<and>
   demo_parse (concat demo_chunks) = Some demo_value \<and>
   exits_of (trace (runHook demo_parse demo_handlers ''Stop'' demo_chunks)) = [] \<and>
   \<not> exited (runHook demo_parse demo_handlers ''Stop'' demo_chunks)\<close>
proof -
  have t: "terminal ''Stop''"
    by (simp add: terminal_def)
  have reg: "registered demo_handlers ''Stop'' = Some (\<lambda>p. Throws ''boom'')"
    by (simp add: registered_def demo_handlers_def)
  have fails: "(\<lambda>p. Throws ''boom'') (payload demo_value ''Stop'') = Throws ''boom'' \<or>
      (\<lambda>p. Throws ''boom'') (payload demo_value ''Stop'') = Rejects ''boom''"
    by simp
  from terminal_handler_failure_no_exit [OF t reg fails demo_complete demo_prefixes demo_empty]
    t reg demo_complete
  show ?thesis by simp
qed

section \<open>The transcript store: auxiliary facts\<close>

lemma and_then_Inr: "and_then (Inr x) f = f x"
  by (simp add: and_then_def)

lemma and_then_Inl: "and_then (Inl e) f = Inl e"
  by (simp add: and_then_def)

lemma read_prop_object: "read_prop (Some (JObj kvs)) k = Inr (obj_get kvs k)"
  by (simp add: read_prop_def)

lemma messages_Nil: "messages parse [] = []"
  by (simp add: messages_def)

lemma messages_Cons:
  "messages parse (l # ls) =
     (case tryParseJSON parse l of
        None \<Rightarrow> messages parse ls
      | Some m \<Rightarrow> if truthy m then m # messages parse ls else messages parse ls)"
  by (simp add: messages_def split: option.splits)

lemma yields_messages: "map snd (yields parse k lines) = messages parse lines"
  by (induction lines arbitrary: k) (auto simp: messages_Nil messages_Cons split: option.splits)

subsection \<open>getInitialMessage\<close>

lemma initial_loop_none:
  assumes "\<forall>m\<in>set (messages parse lines). initial_text m = Inr None"
  shows "initial_loop (yields parse k lines) = Exhausted"
  using assms
  by (induction lines arbitrary: k) (auto simp: messages_Cons messages_Nil split: option.splits)

lemma initial_loop_found:
  assumes "tryParseJSON parse l = Some m"
    and "truthy m"
    and "initial_text m = Inr (Some s)"
    and "\<forall>m'\<in>set (messages parse pre). initial_text m' = Inr None"
  shows "initial_loop (yields parse k (pre @ l # post)) = Leaves s (Suc (k + length pre))"
  using assms(4)
proof (induction pre arbitrary: k)
  case Nil
  then show ?case using assms(1,2,3) by simp
next
  case (Cons p pre)
  then have rest: "initial_loop (yields parse (Suc k) (pre @ l # post)) =
      Leaves s (Suc (Suc k + length pre))"
    by (auto simp: messages_Cons split: option.splits if_splits)
  show ?case
  proof (cases "tryParseJSON parse p")
    case None
    with rest show ?thesis by simp
  next
    case (Some mp)
    show ?thesis
    proof (cases "truthy mp")
      case True
      with Some Cons.prems have "initial_text mp = Inr None"
        by (simp add: messages_Cons)
      with Some True rest show ?thesis by simp
    next
      case False
      with Some rest show ?thesis by simp
    qed
  qed
qed

lemma initial_item_object:
  assumes "is_object item"
  shows "initial_item item = Inr (item_text item)"
proof (cases item)
  case (JObj kvs)
  then show ?thesis
    by (auto simp: initial_item_def read_prop_object and_then_Inr
        split: option.splits json.splits)
qed (use assms in simp_all)

lemma collect_initial_items:
  assumes "\<forall>item\<in>set items. is_object item"
  shows "collect initial_item items = Inr (text_items items)"
  using assms
  by (induction items) (simp_all add: text_items_def initial_item_object and_then_Inr)

lemma initial_text_string:
  assumes "is_user_role m" and "message_content m = Inr (Some (JStr c))"
  shows "initial_text m = Inr (Some c)"
  using assms
  by (auto simp: initial_text_def is_user_role_def message_role_def and_then_def
      split: sum.splits)

lemma initial_text_items:
  assumes "is_user_role m" and "message_content m = Inr (Some (JArr items))"
    and "\<forall>item\<in>set items. is_object item"
  shows "initial_text m =
     Inr (if join [CHR 0x0A] (text_items items) = [] then None
          else Some (join [CHR 0x0A] (text_items items)))"
  using assms(1,2) collect_initial_items [OF assms(3)]
  by (auto simp: initial_text_def is_user_role_def message_role_def and_then_def Let_def
      split: sum.splits)

lemma initial_text_returns_user:
  assumes "initial_text m = Inr (Some s)"
  shows "is_user_role m"
  using assms
  by (auto simp: initial_text_def is_user_role_def message_role_def and_then_def
      split: sum.splits if_splits)

lemma initial_text_other_type:
  assumes "message_type m = Inr t" and "t \<noteq> Some (JStr ''user'')"
  shows "initial_text m = Inr None"
  using assms by (simp add: initial_text_def and_then_Inr)

subsection \<open>searchMessages\<close>


















subsection \<open>getAllMessages\<close>

lemma getAllMessages_hit:
  assumes "transcriptCache st path = Some (d, ts)" and "now - ts < CACHE_TTL"
  shows "getAllMessages parse files st path True now now' = ((d, []), st)"
  using assms by (simp add: getAllMessages_def cache_lookup_def)

lemma getAllMessages_miss:
  assumes "cache_lookup st path True now = None" and "files path = (lines, None)"
  shows "getAllMessages parse files st path True now now' =
     ((messages parse lines, []),
      \<lparr>transcriptCache = (transcriptCache st)(path \<mapsto> (messages parse lines, now')),
       opened = opened st @ [path]\<rparr>)"
  using assms
  by (simp add: getAllMessages_def readTranscriptLines_def yields_messages Let_def)

lemma cache_lookup_expired:
  assumes "transcriptCache st path = Some (d, ts)" and "\<not> now - ts < CACHE_TTL"
  shows "cache_lookup st path True now = None"
  using assms by (simp add: cache_lookup_def)

subsection \<open>Failures of the read\<close>

lemma read_failure_propagates:
  "getLastNMessages parse (lines, Some e) n = Inl e \<and>
   getToolUsage parse ([], Some e) = Inl e \<and>
   getSessionMetadata parse ([], Some e) = Inl e \<and>
   snd (result (searchMessages parse ([], Some e) s options)) = Some e \<and>
   getInitialMessage parse ([], Some e) =
     \<lparr>result = None, lines_read = 0, logged = [Stderr (''Error reading transcript: '' @ e)]\<rparr> \<and>
   fst (getAllMessages parse (\<lambda>p. ([], Some e)) st path False now now') =
     ([], [Stderr (''Error reading transcript: '' @ e)])"
  by (simp add: getLastNMessages_def getToolUsage_def getSessionMetadata_def searchMessages_def
      getInitialMessage_def getAllMessages_def cache_lookup_def readTranscriptLines_def Let_def
      and_then_Inr)

subsection \<open>getLastNMessages\<close>

lemma push_shift_nat:
  assumes "0 \<le> n"
  shows "push_shift n w m = (if nat n \<le> length w then tl (w @ [m]) else w @ [m])"
  using assms by (auto simp add: push_shift_def Let_def)

lemma tl_drop_Suc: "tl (drop d xs) = drop (Suc d) xs"
  by (simp add: drop_Suc tl_drop)

lemma window_snoc:
  "(if N \<le> length (drop (length ms - N) ms)
    then tl (drop (length ms - N) ms @ [m]) else drop (length ms - N) ms @ [m]) =
   drop (Suc (length ms) - N) (ms @ [m])"
proof (cases "N \<le> length ms")
  case True
  have "drop (length ms - N) ms @ [m] = drop (length ms - N) (ms @ [m])"
    by simp
  then have "tl (drop (length ms - N) ms @ [m]) = drop (Suc (length ms - N)) (ms @ [m])"
    by (simp only: tl_drop_Suc)
  moreover have "Suc (length ms - N) = Suc (length ms) - N"
    using True by arith
  moreover have "N \<le> length (drop (length ms - N) ms)"
    using True by simp
  ultimately show ?thesis by (simp only: if_True)
next
  case False
  then show ?thesis by simp
qed

lemma window_fold:
  assumes "0 \<le> n"
  shows "foldl (push_shift n) [] ms = drop (length ms - nat n) ms"
proof (induction ms rule: rev_induct)
  case Nil
  then show ?case by simp
next
  case (snoc m ms)
  have "foldl (push_shift n) [] (ms @ [m]) = push_shift n (drop (length ms - nat n) ms) m"
    using snoc.IH by simp
  also have "\<dots> = drop (Suc (length ms) - nat n) (ms @ [m])"
    by (simp only: push_shift_nat [OF assms] window_snoc)
  finally show ?case by simp
qed

text \<open>
  The concrete transcript, evaluated.
\<close>

lemma demo_messages: "messages demo_line_parse demo_lines = [msg_result, msg_hello, msg_reply]"
  by code_simp

lemma demo_split: "demo_lines = [line_result] @ line_hello # [line_reply]"
  by (simp add: demo_lines_def)

lemma demo_hello: "tryParseJSON demo_line_parse line_hello = Some msg_hello"
  by code_simp

lemma demo_hello_truthy: "truthy msg_hello"
  by code_simp

lemma demo_before_hello: "messages demo_line_parse [line_result] = [msg_result]"
  by code_simp

section \<open>The transcript store: the claims\<close>

text \<open>
  Claim C4 does not hold of the code.  Of the six query functions only
  \<^verbatim>\<open>getInitialMessage\<close> and \<^verbatim>\<open>getAllMessages\<close> catch a failure of the read.  For a
  path that cannot be opened, \<^verbatim>\<open>getLastNMessages\<close>, \<^verbatim>\<open>getToolUsage\<close> and
  \<^verbatim>\<open>getSessionMetadata\<close> reject with the error and the iteration of
  \<^verbatim>\<open>searchMessages\<close> throws it, while the two functions with a \<^verbatim>\<open>try\<close> give
  null and the empty sequence.
\<close>

theorem missing_transcript_rejects:
  "demo_files ''missing.jsonl'' = ([], Some ''ENOENT'') \<and>
   getLastNMessages demo_line_parse (demo_files ''missing.jsonl'') 5 = Inl ''ENOENT'' \<and>
   getToolUsage demo_line_parse (demo_files ''missing.jsonl'') = Inl ''ENOENT'' \<and>
   getSessionMetadata demo_line_parse (demo_files ''missing.jsonl'') = Inl ''ENOENT'' \<and>
   snd (result (searchMessages demo_line_parse (demo_files ''missing.jsonl'') ''error''
                  \<lparr>caseSensitive = None, limit = None\<rparr>)) = Some ''ENOENT'' \<and>
   result (getInitialMessage demo_line_parse (demo_files ''missing.jsonl'')) = None \<and>
   fst (fst (getAllMessages demo_line_parse demo_files empty_store ''missing.jsonl'' True 0 1)) = []"
proof -
  have fread: "demo_files ''missing.jsonl'' = ([], Some ''ENOENT'')"
    by (simp add: demo_files_def)
  have "fst (fst (getAllMessages demo_line_parse demo_files empty_store ''missing.jsonl'' True 0 1)) = []"
    by (simp add: getAllMessages_def cache_lookup_def empty_store_def fread readTranscriptLines_def)
  with fread read_failure_propagates [of demo_line_parse "[]" "''ENOENT''" 5 "''error''"
      "\<lparr>caseSensitive = None, limit = None\<rparr>"]
  show ?thesis by simp
qed

text \<open>
  Claim C6, as stated, fails for a path whose read fails: the first call returns the empty
  sequence and stores nothing, and a second call one millisecond later opens the file
  again.
\<close>

theorem failed_read_not_cached_counterexample:
  "getAllMessages demo_line_parse demo_files empty_store ''missing.jsonl'' True 0 1 =
     (([], [Stderr ''Error reading transcript: ENOENT'']),
      \<lparr>transcriptCache = (\<lambda>path. None), opened = [''missing.jsonl'']\<rparr>) \<and>
   (2::int) - 1 < CACHE_TTL \<and>
   opened (snd (getAllMessages demo_line_parse demo_files
                  \<lparr>transcriptCache = (\<lambda>path. None), opened = [''missing.jsonl'']\<rparr>
                  ''missing.jsonl'' True 2 3)) =
     [''missing.jsonl'', ''missing.jsonl'']"
  by (simp add: getAllMessages_def cache_lookup_def demo_files_def empty_store_def
      readTranscriptLines_def CACHE_TTL_def)

text \<open>
  Claim C6, amended.  Let a first call \<^verbatim>\<open>getAllMessages(path, true)\<close> miss the cache and
  read the file without a failure; it returns the messages of the file and stores them with
  the time \<open>t1\<close>.  The TTL is 300000 milliseconds.  A second call at a time \<open>t2\<close> with
  \<open>t2 - t1 < CACHE_TTL\<close> returns the same result and leaves the store as it is, so it
  opens no file, whatever the file holds by then.  A call at a time \<open>t2\<close> with \<open>t2 - t1 \<ge> CACHE_TTL\<close> opens the file again and,
  when that read completes without a failure, replaces the entry of the path by the new
  messages and the time \<open>t3\<close> at the end of the read.
\<close>

theorem cached_within_ttl:
  assumes "cache_lookup st path True t0 = None"
    and "files path = (lines, None)"
    and "getAllMessages parse files st path True t0 t1 = ((r1, log1), st1)"
  shows "CACHE_TTL = 300000 \<and>
         r1 = messages parse lines \<and>
         transcriptCache st1 path = Some (r1, t1) \<and>
         opened st1 = opened st @ [path] \<and>
         (t2 - t1 < CACHE_TTL \<longrightarrow>
            getAllMessages parse files' st1 path True t2 t3 = ((r1, []), st1)) \<and>
         (\<not> t2 - t1 < CACHE_TTL \<and> files' path = (lines', None) \<longrightarrow>
            getAllMessages parse files' st1 path True t2 t3 =
              ((messages parse lines', []),
               \<lparr>transcriptCache = (transcriptCache st1)(path \<mapsto> (messages parse lines', t3)),
                opened = opened st1 @ [path]\<rparr>))"
proof -
  have "getAllMessages parse files st path True t0 t1 =
     ((messages parse lines, []),
      \<lparr>transcriptCache = (transcriptCache st)(path \<mapsto> (messages parse lines, t1)),
       opened = opened st @ [path]\<rparr>)"
    using assms(1,2) by (rule getAllMessages_miss)
  with assms(3)
  have r1: "r1 = messages parse lines"
    and st1: "st1 = \<lparr>transcriptCache = (transcriptCache st)(path \<mapsto> (messages parse lines, t1)),
       opened = opened st @ [path]\<rparr>"
    by auto
  from r1 st1 have entry: "transcriptCache st1 path = Some (r1, t1)"
    by simp
  have hit: "getAllMessages parse files' st1 path True t2 t3 = ((r1, []), st1)"
    if "t2 - t1 < CACHE_TTL"
    using entry that by (rule getAllMessages_hit)
  have reread: "getAllMessages parse files' st1 path True t2 t3 =
              ((messages parse lines', []),
               \<lparr>transcriptCache = (transcriptCache st1)(path \<mapsto> (messages parse lines', t3)),
                opened = opened st1 @ [path]\<rparr>)"
    if "\<not> t2 - t1 < CACHE_TTL" "files' path = (lines', None)"
    using cache_lookup_expired [OF entry that(1)] that(2) by (rule getAllMessages_miss)
  have ttl: "CACHE_TTL = 300000"
    by (simp add: CACHE_TTL_def)
  from ttl r1 st1 entry hit reread show ?thesis by simp
qed

theorem cached_within_ttl_witness:
  "cache_lookup empty_store ''t.jsonl'' True 0 = None \<and>
   demo_files ''t.jsonl'' = (demo_lines, None) \<and>
   fst (getAllMessages demo_line_parse demo_files empty_store ''t.jsonl'' True 0 1) =
     ([msg_result, msg_hello, msg_reply], []) \<and>
   (299999::int) - 1 < CACHE_TTL \<and>
   getAllMessages demo_line_parse (\<lambda>path. ([], None))
       (snd (getAllMessages demo_line_parse demo_files empty_store ''t.jsonl'' True 0 1))
       ''t.jsonl'' True 299999 300000 =
     (([msg_result, msg_hello, msg_reply], []),
      snd (getAllMessages demo_line_parse demo_files empty_store ''t.jsonl'' True 0 1)) \<and>
   opened (snd (getAllMessages demo_line_parse demo_files empty_store ''t.jsonl'' True 0 1)) =
     [''t.jsonl''] \<and>
   \<not> (300001::int) - 1 < CACHE_TTL \<and>
   fst (getAllMessages demo_line_parse (\<lambda>path. ([], None))
       (snd (getAllMessages demo_line_parse demo_files empty_store ''t.jsonl'' True 0 1))
       ''t.jsonl'' True 300001 300002) = ([], []) \<and>
   opened (snd (getAllMessages demo_line_parse (\<lambda>path. ([], None))
       (snd (getAllMessages demo_line_parse demo_files empty_store ''t.jsonl'' True 0 1))
       ''t.jsonl'' True 300001 300002)) = [''t.jsonl'', ''t.jsonl'']"
proof -
  obtain r1 log1 st1 where first:
    "getAllMessages demo_line_parse demo_files empty_store ''t.jsonl'' True 0 1 = ((r1, log1), st1)"
    by (metis surj_pair)
  have miss: "cache_lookup empty_store ''t.jsonl'' True 0 = None"
    by (simp add: cache_lookup_def empty_store_def)
  have fread: "demo_files ''t.jsonl'' = (demo_lines, None)"
    by (simp add: demo_files_def)
  have within: "(299999::int) - 1 < CACHE_TTL" and after: "\<not> (300001::int) - 1 < CACHE_TTL"
    by (simp_all add: CACHE_TTL_def)
  have log1: "log1 = []"
    using first miss fread by (simp add: getAllMessages_def readTranscriptLines_def Let_def)
  have empty: "messages demo_line_parse [] = []"
    by (simp add: messages_def)
  note main = cached_within_ttl [OF miss fread first, where files' = "\<lambda>path. ([], None)"
      and lines' = "[]"]
  from main [where ?t2.0 = 299999 and ?t3.0 = 300000] within
  have a: "r1 = messages demo_line_parse demo_lines \<and> opened st1 = opened empty_store @ [''t.jsonl''] \<and>
      getAllMessages demo_line_parse (\<lambda>path. ([], None)) st1 ''t.jsonl'' True 299999 300000 =
        ((r1, []), st1)"
    by blast
  from main [where ?t2.0 = 300001 and ?t3.0 = 300002] after
  have b: "getAllMessages demo_line_parse (\<lambda>path. ([], None)) st1 ''t.jsonl'' True 300001 300002 =
      ((messages demo_line_parse [], []),
       \<lparr>transcriptCache = (transcriptCache st1)(''t.jsonl'' \<mapsto> (messages demo_line_parse [], 300002)),
        opened = opened st1 @ [''t.jsonl'']\<rparr>)"
    by blast
  from a b first log1 miss fread within after show ?thesis
    by (simp add: demo_messages empty empty_store_def)
qed




text \<open>
  Claim C8.  For \<open>n \<ge> 0\<close> and a transcript whose lines give \<open>m\<close> messages,
  \<^verbatim>\<open>getLastNMessages\<close> returns the last \<open>min n m\<close> messages in their order in the log,
  and the window it keeps while scanning never holds more than \<open>n\<close> messages.
\<close>

theorem getLastNMessages_final_window:
  assumes "0 \<le> n"
  shows "getLastNMessages parse (lines, None) n =
           Inr (drop (length (messages parse lines) - min (nat n) (length (messages parse lines)))
                  (messages parse lines)) \<and>
         (\<forall>k. length (foldl (push_shift n) [] (take k (messages parse lines))) \<le> nat n)"
proof -
  have "foldl (push_shift n) [] ms = drop (length ms - min (nat n) (length ms)) ms" for ms
    using window_fold [OF assms, of ms] by (simp add: min_def)
  moreover have "length (foldl (push_shift n) [] ms) \<le> nat n" for ms
    by (simp add: window_fold [OF assms])
  ultimately show ?thesis
    by (simp only: getLastNMessages_def readTranscriptLines_def yields_messages fst_conv snd_conv
        prod.case option.case simp_thms)
qed

theorem getLastNMessages_final_window_witness:
  "(0::int) \<le> 2 \<and>
   getLastNMessages demo_line_parse (demo_lines, None) 2 = Inr [msg_hello, msg_reply]"
proof -
  have n: "(0::int) \<le> 2" by simp
  from getLastNMessages_final_window [OF n, of demo_line_parse demo_lines]
  have "getLastNMessages demo_line_parse (demo_lines, None) 2 =
      Inr (drop (length (messages demo_line_parse demo_lines) -
                 min (nat 2) (length (messages demo_line_parse demo_lines)))
             (messages demo_line_parse demo_lines))"
    by blast
  then show ?thesis
    by (simp add: demo_messages)
qed

text \<open>
  Claim C9, as stated, fails in two ways.  When the first message of role \<^verbatim>\<open>user\<close>
  has no text (it carries a tool result only, its textual content is empty),
  \<^verbatim>\<open>getInitialMessage\<close> goes on to the second line and returns the text of the user
  message there.  When a line of type \<^verbatim>\<open>user\<close> without a message object comes before
  the first message of role \<^verbatim>\<open>user\<close>, the body of the loop throws, the error is
  caught and logged, and the result is null although a user message follows.
\<close>

theorem getInitialMessage_first_user_counterexample:
  "messages demo_line_parse demo_lines = [msg_result, msg_hello, msg_reply] \<and>
   is_user_role msg_result \<and>
   spec_initial_message (messages demo_line_parse demo_lines) = Some [] \<and>
   getInitialMessage demo_line_parse (demo_lines, None) =
     \<lparr>result = Some ''Hello, an ERROR again'', lines_read = 2, logged = []\<rparr> \<and>
   messages demo_line_parse [line_bare, line_hello] = [msg_bare, msg_hello] \<and>
   \<not> is_user_role msg_bare \<and>
   spec_initial_message (messages demo_line_parse [line_bare, line_hello]) =
     Some ''Hello, an ERROR again'' \<and>
   getInitialMessage demo_line_parse ([line_bare, line_hello], None) =
     \<lparr>result = None, lines_read = 1,
      logged = [Stderr ''Error reading transcript: TypeError'']\<rparr>"
  by code_simp

text \<open>
  Claim C9, amended.  On a transcript in which no message before the one returned (no
  message at all, when none is returned) makes the body of the loop throw,
  \<^verbatim>\<open>getInitialMessage\<close> returns the text of the first message for which the body of its
  loop returns, and stops there: the lines read are those up to and including the line of
  that message, whatever follows in the file.  When the body returns for no message, the
  result is null and all lines have been read.  The body returns for a message of role
  \<^verbatim>\<open>user\<close> whose content is a string (the text is that string) or an array of objects
  whose text items, joined by newlines, are not empty (the text is the joined items); it
  goes on at a message whose type is not \<^verbatim>\<open>user\<close>, and it never returns for a message
  whose role is not \<^verbatim>\<open>user\<close>.  Nothing is stated about a transcript in which the body
  throws before a text is returned.
\<close>

theorem getInitialMessage_first_text:
  "(lines = pre @ l # post \<and> tryParseJSON parse l = Some m \<and> truthy m \<and>
    initial_text m = Inr (Some s) \<and>
    (\<forall>m'\<in>set (messages parse pre). initial_text m' = Inr None) \<longrightarrow>
      getInitialMessage parse (lines, failure) =
        \<lparr>result = Some s, lines_read = Suc (length pre), logged = []\<rparr>) \<and>
   ((\<forall>m'\<in>set (messages parse lines). initial_text m' = Inr None) \<longrightarrow>
      result (getInitialMessage parse (lines, failure)) = None \<and>
      lines_read (getInitialMessage parse (lines, failure)) = length lines) \<and>
   (is_user_role m1 \<and> message_content m1 = Inr (Some (JStr c)) \<longrightarrow>
      initial_text m1 = Inr (Some c)) \<and>
   (is_user_role m2 \<and> message_content m2 = Inr (Some (JArr items)) \<and>
    (\<forall>item\<in>set items. is_object item) \<longrightarrow>
      initial_text m2 =
        Inr (if join [CHR 0x0A] (text_items items) = [] then None
             else Some (join [CHR 0x0A] (text_items items)))) \<and>
   (message_type m3 = Inr t \<and> t \<noteq> Some (JStr ''user'') \<longrightarrow> initial_text m3 = Inr None) \<and>
   (initial_text m4 = Inr (Some s4) \<longrightarrow> is_user_role m4)"
proof -
  have a: "getInitialMessage parse (lines, failure) =
        \<lparr>result = Some s, lines_read = Suc (length pre), logged = []\<rparr>"
    if "lines = pre @ l # post" "tryParseJSON parse l = Some m" "truthy m"
      "initial_text m = Inr (Some s)"
      "\<forall>m'\<in>set (messages parse pre). initial_text m' = Inr None"
    using initial_loop_found [OF that(2,3,4,5), of 0 post] that(1)
    by (simp add: getInitialMessage_def readTranscriptLines_def)
  have b: "result (getInitialMessage parse (lines, failure)) = None \<and>
      lines_read (getInitialMessage parse (lines, failure)) = length lines"
    if "\<forall>m'\<in>set (messages parse lines). initial_text m' = Inr None"
    using initial_loop_none [OF that, of 0]
    by (simp add: getInitialMessage_def readTranscriptLines_def split: option.splits)
  from a b initial_text_string [of m1 c] initial_text_items [of m2 items]
    initial_text_other_type [of m3 t] initial_text_returns_user [of m4 s4]
  show ?thesis by blast
qed

theorem getInitialMessage_first_text_witness:
  "tryParseJSON demo_line_parse line_hello = Some msg_hello \<and>
   is_user_role msg_hello \<and>
   message_content msg_hello = Inr (Some (JStr ''Hello, an ERROR again'')) \<and>
   initial_text msg_hello = Inr (Some ''Hello, an ERROR again'') \<and>
   messages demo_line_parse [line_result] = [msg_result] \<and>
   is_user_role msg_result \<and>
   initial_text msg_result = Inr None \<and>
   getInitialMessage demo_line_parse (demo_lines, Some ''EIO'') =
     \<lparr>result = Some ''Hello, an ERROR again'', lines_read = 2, logged = []\<rparr> \<and>
   result (getInitialMessage demo_line_parse ([line_result], None)) = None \<and>
   lines_read (getInitialMessage demo_line_parse ([line_result], None)) = 1 \<and>
   message_type msg_reply = Inr (Some (JStr ''assistant'')) \<and>
   initial_text msg_reply = Inr None"
proof -
  let ?items = "[JObj [(''type'', JStr ''tool_result''), (''content'', JStr ''ok'')]]"
  have role: "is_user_role msg_hello" and role': "is_user_role msg_result"
    by code_simp+
  have content: "message_content msg_hello = Inr (Some (JStr ''Hello, an ERROR again''))"
    by code_simp
  have content': "message_content msg_result = Inr (Some (JArr ?items))"
    by code_simp
  have objects: "\<forall>item\<in>set ?items. is_object item"
    by simp
  have no_text: "join [CHR 0x0A] (text_items ?items) = []"
    by code_simp
  have reply: "message_type msg_reply = Inr (Some (JStr ''assistant''))"
    by code_simp
  have other: "Some (JStr ''assistant'') \<noteq> Some (JStr ''user'')"
    by simp
  note main = getInitialMessage_first_text [where parse = demo_line_parse
      and ?m1.0 = msg_hello and c = "''Hello, an ERROR again''"
      and ?m2.0 = msg_result and items = ?items
      and ?m3.0 = msg_reply and t = "Some (JStr ''assistant'')"]
  from main [where lines = demo_lines] role content
  have hello_text: "initial_text msg_hello = Inr (Some ''Hello, an ERROR again'')"
    by blast
  from main [where lines = demo_lines] role' content' objects no_text
  have none: "initial_text msg_result = Inr None"
    by simp
  from main [where lines = demo_lines] reply other
  have skip: "initial_text msg_reply = Inr None"
    by blast
  have before: "\<forall>m'\<in>set (messages demo_line_parse [line_result]). initial_text m' = Inr None"
    by (simp add: demo_before_hello none)
  from main [where lines = demo_lines and pre = "[line_result]" and l = line_hello
      and post = "[line_reply]" and m = msg_hello
      and s = "''Hello, an ERROR again''" and failure = "Some ''EIO''"]
    demo_split demo_hello demo_hello_truthy hello_text before
  have a: "getInitialMessage demo_line_parse (demo_lines, Some ''EIO'') =
     \<lparr>result = Some ''Hello, an ERROR again'', lines_read = Suc (length [line_result]), logged = []\<rparr>"
    by blast
  from main [where lines = "[line_result]" and failure = None] before
  have b: "result (getInitialMessage demo_line_parse ([line_result], None)) = None \<and>
      lines_read (getInitialMessage demo_line_parse ([line_result], None)) = length [line_result]"
    by blast
  from a b demo_hello role role' content hello_text demo_before_hello none reply skip
  show ?thesis
    by simp
qed

end
